theory Spec2Isabelle
  imports Main
begin

section \<open>Python strings\<close>

text \<open>
  A Python \<open>str\<close> is modelled as a \<open>string\<close>; a \<open>char\<close> stands for a code point below
  256, so \<open>length\<close> is Python's \<open>len\<close> and \<open>take n\<close> is the slice \<open>[:n]\<close>.
\<close>

definition isspace :: "char \<Rightarrow> bool" where
  \<comment> \<open>The code points below 256 that \<open>str.strip()\<close> removes.\<close>
  "isspace c =
     (let n = (of_char c :: nat)
      in (9 \<le> n \<and> n \<le> 13) \<or> (28 \<le> n \<and> n \<le> 32) \<or> n = 133 \<or> n = 160)"

definition strip :: "string \<Rightarrow> string" where
  \<comment> \<open>\<open>s.strip()\<close>\<close>
  "strip s = rev (dropWhile isspace (rev (dropWhile isspace s)))"

definition lower_char :: "char \<Rightarrow> char" where
  "lower_char c =
     (let n = (of_char c :: nat)
      in if (65 \<le> n \<and> n \<le> 90) \<or> (192 \<le> n \<and> n \<le> 222 \<and> n \<noteq> 215)
         then char_of (n + 32) else c)"

definition lower :: "string \<Rightarrow> string" where
  \<comment> \<open>\<open>s.lower()\<close>\<close>
  "lower s = map lower_char s"

definition startswith :: "string \<Rightarrow> string \<Rightarrow> bool" where
  \<comment> \<open>\<open>s.startswith(p)\<close>\<close>
  "startswith s p = (take (length p) s = p)"

fun join :: "string \<Rightarrow> string list \<Rightarrow> string" where
  \<comment> \<open>\<open>sep.join(parts)\<close>\<close>
  "join sep [] = []"
| "join sep [x] = x"
| "join sep (x # y # ys) = x @ sep @ join sep (y # ys)"

section \<open>The parsed tree\<close>

text \<open>
  What \<open>BeautifulSoup(text, "html.parser")\<close> returns: a tree of tags, each with a name,
  an attribute dictionary (here the list of its items) and its contents, with the strings
  between them. \<open>Comment\<close> stands for the string classes that \<open>get_text\<close> passes over.
  The \<open>BeautifulSoup\<close> object itself is the root tag, named \<open>[document]\<close>.
\<close>

datatype node =
    NavigableString string
  | Comment string
  | Tag string "(string \<times> string) list" "node list"

fun name_of :: "node \<Rightarrow> string option" where
  \<comment> \<open>\<open>getattr(node, "name", None)\<close>\<close>
  "name_of (Tag n a cs) = Some n"
| "name_of _ = None"

fun contents :: "node \<Rightarrow> node list" where
  "contents (Tag n a cs) = cs"
| "contents _ = []"

fun get :: "node \<Rightarrow> string \<Rightarrow> string option" where
  \<comment> \<open>\<open>tag.get(key)\<close>\<close>
  "get (Tag n a cs) key = map_of a key"
| "get _ key = None"

text \<open>
  An element in its place in the tree: the node together with its \<open>next_siblings\<close>.
  \<open>descendants\<close> lists the elements below a list of contents in document order.
\<close>

type_synonym element = "node \<times> node list"

fun descendants :: "node list \<Rightarrow> element list" where
  "descendants [] = []"
| "descendants (NavigableString s # rest) = (NavigableString s, rest) # descendants rest"
| "descendants (Comment s # rest) = (Comment s, rest) # descendants rest"
| "descendants (Tag n a cs # rest) = (Tag n a cs, rest) # descendants cs @ descendants rest"

definition find_all :: "string \<Rightarrow> element list \<Rightarrow> element list" where
  \<comment> \<open>\<open>find_all(name)\<close> over the given elements\<close>
  "find_all name els = filter (\<lambda>e. name_of (fst e) = Some name) els"

definition find_all_href :: "string \<Rightarrow> element list \<Rightarrow> element list" where
  \<comment> \<open>\<open>find_all(name, href=True)\<close>: the tags of that name that carry an \<open>href\<close>\<close>
  "find_all_href name els =
     filter (\<lambda>e. name_of (fst e) = Some name \<and> get (fst e) ''href'' \<noteq> None) els"

definition find :: "string \<Rightarrow> element list \<Rightarrow> element option" where
  \<comment> \<open>\<open>find(name)\<close>: the first match of \<open>find_all\<close>, or \<open>None\<close>\<close>
  "find name els = (case find_all name els of [] \<Rightarrow> None | e # _ \<Rightarrow> Some e)"

definition find_attrs :: "string \<Rightarrow> string \<Rightarrow> string \<Rightarrow> element list \<Rightarrow> element option" where
  \<comment> \<open>\<open>find(name, attrs={key: v})\<close>\<close>
  "find_attrs name key v els =
     (case filter (\<lambda>e. name_of (fst e) = Some name \<and> get (fst e) key = Some v) els of
        [] \<Rightarrow> None | e # _ \<Rightarrow> Some e)"

definition find_next :: "string list \<Rightarrow> string \<Rightarrow> element list \<Rightarrow> element option" where
  \<comment> \<open>\<open>first.find_next(names)\<close> for the first tag named \<open>start\<close>: the first tag with one of
      the names among the elements after it in document order\<close>
  "find_next names start els =
     (case filter (\<lambda>e. case name_of (fst e) of None \<Rightarrow> False | Some n \<Rightarrow> n \<in> set names)
             (tl (dropWhile (\<lambda>e. name_of (fst e) \<noteq> Some start) els)) of
        [] \<Rightarrow> None | e # _ \<Rightarrow> Some e)"

fun string_of :: "node \<Rightarrow> string option" where
  \<comment> \<open>\<open>tag.string\<close>: the single string below the tag, if its contents come down to one\<close>
  "string_of (NavigableString s) = Some s"
| "string_of (Comment s) = Some s"
| "string_of (Tag n a [c]) = string_of c"
| "string_of (Tag n a cs) = None"

fun text_of :: "element \<Rightarrow> string option" where
  "text_of (NavigableString s, sibs) = Some s"
| "text_of _ = None"

definition stripped_strings :: "node \<Rightarrow> string list" where
  \<comment> \<open>the strings below the tag, each stripped, the empty ones dropped\<close>
  "stripped_strings t =
     filter (\<lambda>s. s \<noteq> []) (map strip (List.map_filter text_of (descendants (contents t))))"

definition get_text :: "string \<Rightarrow> node \<Rightarrow> string" where
  \<comment> \<open>\<open>tag.get_text(sep, strip=True)\<close>\<close>
  "get_text sep t = join sep (stripped_strings t)"

section \<open>The normalized document\<close>

record hero =
  heading :: "string option"
  subheading :: "string option"

record nav_link =
  label :: string
  href :: string

record page_section =
  sec_title :: string
  body :: string

record image =
  src :: string
  alt :: string

record document =
  source :: string
  title :: "string option"
  description :: "string option"
  hero :: hero
  nav :: "nav_link list"
  sections :: "page_section list"
  images :: "image list"

datatype py_error =
    KeyError string
  | LibraryError string

text \<open>
  \<open>KeyError\<close> is what \<open>tag[key]\<close> raises on a missing key; \<open>LibraryError\<close> stands for
  any exception raised inside a call of the parsing library (the parser or the
  serialiser), with its message.
\<close>

datatype failure =
    HTTPException nat string
  | Uncaught py_error

section \<open>The extraction, block by block\<close>

subsection \<open>Title and meta\<close>

definition extract_title :: "element list \<Rightarrow> string option" where
  \<comment> \<open>\<open>soup.title.string.strip() if soup.title and soup.title.string else None\<close>\<close>
  "extract_title els =
     (case find ''title'' els of
        None \<Rightarrow> None
      | Some t \<Rightarrow>
          (case string_of (fst t) of
             None \<Rightarrow> None
           | Some s \<Rightarrow> if s \<noteq> [] then Some (strip s) else None))"

definition extract_description :: "element list \<Rightarrow> string option" where
  "extract_description els =
     (let og_desc =
            (case find_attrs ''meta'' ''name'' ''description'' els of
               Some m \<Rightarrow> Some m
             | None \<Rightarrow> find_attrs ''meta'' ''property'' ''og:description'' els)
      in case og_desc of
           None \<Rightarrow> None
         | Some m \<Rightarrow>
             (case get (fst m) ''content'' of
                None \<Rightarrow> None
              | Some c \<Rightarrow> if c \<noteq> [] then Some (strip c) else None))"

subsection \<open>Hero\<close>

definition h1s :: "element list \<Rightarrow> string list" where
  "h1s els = map (\<lambda>h. get_text [] (fst h)) (find_all ''h1'' els)"

definition hero_heading :: "element list \<Rightarrow> string option \<Rightarrow> string option" where
  \<comment> \<open>\<open>h1s[0] if h1s else title\<close>\<close>
  "hero_heading els ttl = (case h1s els of [] \<Rightarrow> ttl | h # _ \<Rightarrow> Some h)"

definition truthy :: "string option \<Rightarrow> bool" where
  \<comment> \<open>Python's truth value of a string or \<open>None\<close>\<close>
  "truthy v = (case v of None \<Rightarrow> False | Some s \<Rightarrow> s \<noteq> [])"

definition hero_sub :: "element list \<Rightarrow> string option \<Rightarrow> string option" where
  "hero_sub els ttl =
     (if truthy (hero_heading els ttl) then
        (case find ''h1'' els of
           None \<Rightarrow> None
         | Some first_h1 \<Rightarrow>
             (case find_next [''p'', ''h2'', ''div''] ''h1'' els of
                None \<Rightarrow> None
              | Some sib_p \<Rightarrow> Some (take 300 (get_text [] (fst sib_p)))))
      else None)"

subsection \<open>Navigation\<close>

fun nav_loop :: "element list \<Rightarrow> nav_link list \<Rightarrow> py_error + nav_link list" where
  \<comment> \<open>the loop over \<open>nav.find_all("a", href=True)\<close>; \<open>a["href"]\<close> raises on a missing key\<close>
  "nav_loop [] acc = Inr acc"
| "nav_loop (a # as) acc =
     (let text = get_text [] (fst a)
      in case get (fst a) ''href'' of
           None \<Rightarrow> Inl (KeyError ''href'')
         | Some h \<Rightarrow>
             (let href' = strip h
              in if text \<noteq> [] \<and> href' \<noteq> [] \<and> \<not> startswith (lower text) ''#''
                 then nav_loop as (acc @ [\<lparr>label = text, href = href'\<rparr>])
                 else nav_loop as acc))"

fun fallback_loop :: "element list \<Rightarrow> nav_link list \<Rightarrow> py_error + nav_link list" where
  \<comment> \<open>the loop over \<open>soup.find_all("a", href=True)[:8]\<close>\<close>
  "fallback_loop [] acc = Inr acc"
| "fallback_loop (a # as) acc =
     (let text = get_text [] (fst a)
      in case get (fst a) ''href'' of
           None \<Rightarrow> Inl (KeyError ''href'')
         | Some h \<Rightarrow>
             (let href' = strip h
              in if text \<noteq> []
                 then fallback_loop as (acc @ [\<lparr>label = text, href = href'\<rparr>])
                 else fallback_loop as acc))"

definition nav_links :: "element list \<Rightarrow> py_error + nav_link list" where
  "nav_links els =
     (case find ''nav'' els of
        Some nav_tag \<Rightarrow> nav_loop (find_all_href ''a'' (descendants (contents (fst nav_tag)))) []
      | None \<Rightarrow> fallback_loop (take 8 (find_all_href ''a'' els)) [])"

subsection \<open>Sections\<close>

fun collect_siblings ::
  "(node \<Rightarrow> py_error + node) \<Rightarrow> node list \<Rightarrow> string list \<Rightarrow> py_error + string list" where
  \<comment> \<open>the loop over \<open>h2.next_siblings\<close>, with its \<open>break\<close> at the next \<open>h2\<close>;
      \<open>reparse sib\<close> is \<open>BeautifulSoup(str(sib), "html.parser")\<close>, which may raise\<close>
  "collect_siblings reparse [] content_parts = Inr content_parts"
| "collect_siblings reparse (sib # sibs) content_parts =
     (if name_of sib = Some ''h2'' then Inr content_parts
      else if name_of sib \<in> Some ` {''p'', ''h3'', ''ul'', ''ol'', ''div''} then
        (case reparse sib of
           Inl e \<Rightarrow> Inl e
         | Inr parsed \<Rightarrow>
             (let text = get_text '' '' parsed
              in collect_siblings reparse sibs
                   (if text \<noteq> [] then content_parts @ [text] else content_parts)))
      else collect_siblings reparse sibs content_parts)"

fun sections_loop ::
  "(node \<Rightarrow> py_error + node) \<Rightarrow> element list \<Rightarrow> page_section list
     \<Rightarrow> py_error + page_section list" where
  \<comment> \<open>the loop over \<open>soup.find_all("h2")\<close>\<close>
  "sections_loop reparse [] secs = Inr secs"
| "sections_loop reparse (h2 # h2s) secs =
     (case collect_siblings reparse (snd h2) [] of
        Inl e \<Rightarrow> Inl e
      | Inr content_parts \<Rightarrow>
          (let sec_text = take 1200 (join [CHR 0x0A] content_parts)
           in sections_loop reparse h2s
                (secs @ [\<lparr>sec_title = get_text [] (fst h2), body = sec_text\<rparr>])))"

subsection \<open>Images\<close>

fun images_loop :: "element list \<Rightarrow> image list \<Rightarrow> image list" where
  \<comment> \<open>the loop over \<open>soup.find_all("img")\<close>\<close>
  "images_loop [] imgs = imgs"
| "images_loop (img # rest) imgs =
     (let src' = get (fst img) ''src'';
          alt' = (case get (fst img) ''alt'' of None \<Rightarrow> [] | Some v \<Rightarrow> v)
      in case src' of
           None \<Rightarrow> images_loop rest imgs
         | Some s \<Rightarrow>
             if s \<noteq> [] then images_loop rest (imgs @ [\<lparr>src = s, alt = alt'\<rparr>])
             else images_loop rest imgs)"

subsection \<open>The whole document\<close>

definition default_body :: string where
  "default_body = ''We build advanced quantitative computing and AI solutions.''"

definition scrape_soup ::
  "(node \<Rightarrow> py_error + node) \<Rightarrow> string \<Rightarrow> node \<Rightarrow> py_error + document" where
  \<comment> \<open>\<open>scrape_site\<close> from the parsed \<open>soup\<close> on\<close>
  "scrape_soup reparse target soup =
     (let els = descendants (contents soup);
          title' = extract_title els;
          description' = extract_description els;
          hero_heading' = hero_heading els title';
          hero_sub' = hero_sub els title'
      in case nav_links els of
           Inl e \<Rightarrow> Inl e
         | Inr nav_links' \<Rightarrow>
             (case sections_loop reparse (find_all ''h2'' els) [] of
                Inl e \<Rightarrow> Inl e
              | Inr sections' \<Rightarrow>
                  (let images' = take 10 (images_loop (find_all ''img'' els) [])
                   in Inr \<lparr>source = target,
                           title = title',
                           description = description',
                           hero = \<lparr>heading = hero_heading', subheading = hero_sub'\<rparr>,
                           nav = take 8 nav_links',
                           sections =
                             (if sections' \<noteq> [] then take 6 sections'
                              else [\<lparr>sec_title = ''About'',
                                     body = (case description' of
                                               None \<Rightarrow> default_body
                                             | Some d \<Rightarrow>
                                                 if d \<noteq> [] then d else default_body)\<rparr>]),
                           images = images'\<rparr>)))"

definition normalize :: "(node \<Rightarrow> node) \<Rightarrow> string \<Rightarrow> node \<Rightarrow> py_error + document" where
  \<comment> \<open>the extraction from a tree whose content siblings \<open>reparse\<close> parses again without
      raising\<close>
  "normalize reparse target soup = scrape_soup (\<lambda>sib. Inr (reparse sib)) target soup"

definition default_target :: string where
  "default_target = ''https://qarakal.ai/''"

definition target_of :: "string option \<Rightarrow> string" where
  \<comment> \<open>\<open>url or "https://qarakal.ai/"\<close>\<close>
  "target_of url =
     (case url of None \<Rightarrow> default_target | Some u \<Rightarrow> if u \<noteq> [] then u else default_target)"

definition reparse_with ::
  "(string \<Rightarrow> py_error + node) \<Rightarrow> (node \<Rightarrow> py_error + string) \<Rightarrow> node \<Rightarrow> py_error + node" where
  \<comment> \<open>\<open>BeautifulSoup(str(sib), "html.parser")\<close>\<close>
  "reparse_with bs str sib = (case str sib of Inl e \<Rightarrow> Inl e | Inr s \<Rightarrow> bs s)"

definition scrape_site ::
  "(string \<Rightarrow> string + string) \<Rightarrow> (string \<Rightarrow> py_error + node) \<Rightarrow> (node \<Rightarrow> py_error + string)
     \<Rightarrow> string option \<Rightarrow> failure + document" where
  \<comment> \<open>\<open>requests_get url\<close> is \<open>Inr\<close> the response text, or \<open>Inl\<close> the message of the exception
      that \<open>requests.get\<close> or \<open>raise_for_status\<close> raised; \<open>bs\<close> is the parser and \<open>str\<close>
      the serialisation of a node, each \<open>Inl\<close> the exception where it raises one. Only the
      fetch is inside the \<open>try\<close>: an exception of the parser goes out of the call uncaught.\<close>
  "scrape_site requests_get bs str url =
     (let target = target_of url
      in case requests_get target of
           Inl e \<Rightarrow> Inl (HTTPException 502 (''Failed to fetch site: '' @ e))
         | Inr text \<Rightarrow>
             (case bs text of
                Inl e \<Rightarrow> Inl (Uncaught e)
              | Inr soup \<Rightarrow>
                  (case scrape_soup (reparse_with bs str) target soup of
                     Inl e \<Rightarrow> Inl (Uncaught e)
                   | Inr data \<Rightarrow> Inr data)))"

section \<open>The extraction in the words of its description\<close>

definition trimmed :: "string \<Rightarrow> bool" where
  \<comment> \<open>no leading and no trailing whitespace\<close>
  "trimmed s = (strip s = s)"

definition spec_nav_keep :: "element \<Rightarrow> bool" where
  \<comment> \<open>an anchor with visible text and an href, whose text does not begin with \<open>#\<close>\<close>
  "spec_nav_keep a =
     (get_text [] (fst a) \<noteq> [] \<and>
      (case get (fst a) ''href'' of None \<Rightarrow> False | Some h \<Rightarrow> strip h \<noteq> []) \<and>
      \<not> startswith (get_text [] (fst a)) ''#'')"

definition spec_nav_entry :: "element \<Rightarrow> nav_link" where
  \<comment> \<open>\<open>{label: trimmed visible text, href: trimmed href attribute}\<close>\<close>
  "spec_nav_entry a =
     \<lparr>label = get_text [] (fst a),
      href = (case get (fst a) ''href'' of None \<Rightarrow> [] | Some h \<Rightarrow> strip h)\<rparr>"

definition has_text :: "element \<Rightarrow> bool" where
  "has_text a = (get_text [] (fst a) \<noteq> [])"

definition is_content_tag :: "node \<Rightarrow> bool" where
  \<comment> \<open>a paragraph, third-level heading, list or generic block container\<close>
  "is_content_tag sib = (name_of sib \<in> Some ` {''p'', ''h3'', ''ul'', ''ol'', ''div''})"

definition spec_section_parts :: "(node \<Rightarrow> node) \<Rightarrow> node list \<Rightarrow> string list" where
  \<comment> \<open>the texts of the content siblings up to the next \<open>h2\<close>, those without text left out\<close>
  "spec_section_parts reparse sibs =
     filter (\<lambda>t. t \<noteq> [])
       (map (\<lambda>sib. get_text '' '' (reparse sib))
          (filter is_content_tag (takeWhile (\<lambda>sib. name_of sib \<noteq> Some ''h2'') sibs)))"

definition spec_section :: "(node \<Rightarrow> node) \<Rightarrow> element \<Rightarrow> page_section" where
  "spec_section reparse h2 =
     \<lparr>sec_title = get_text [] (fst h2),
      body = take 1200 (join [CHR 0x0A] (spec_section_parts reparse (snd h2)))\<rparr>"

definition has_src :: "element \<Rightarrow> bool" where
  "has_src img = (case get (fst img) ''src'' of None \<Rightarrow> False | Some s \<Rightarrow> s \<noteq> [])"

definition spec_image :: "element \<Rightarrow> image" where
  "spec_image img =
     \<lparr>src = (case get (fst img) ''src'' of None \<Rightarrow> [] | Some s \<Rightarrow> s),
      alt = (case get (fst img) ''alt'' of None \<Rightarrow> [] | Some v \<Rightarrow> v)\<rparr>"


section \<open>Sample pages\<close>

text \<open>
  Trees as \<open>html.parser\<close> builds them for small pages, and stand-ins for the library calls
  that the extraction is given: fetching, parsing, serialising.
\<close>

definition reparse_same :: "node \<Rightarrow> node" where
  \<comment> \<open>serialising a node and parsing it again, where that gives the node back under a new root\<close>
  "reparse_same sib = Tag ''[document]'' [] [sib]"

definition acme_page :: node where
  "acme_page =
     Tag ''[document]'' []
       [Tag ''html'' []
          [Tag ''head'' []
             [Tag ''title'' [] [NavigableString ''Acme''],
              Tag ''meta'' [(''name'', ''description''), (''content'', ''We build things'')] []],
           Tag ''body'' []
             [Tag ''nav'' []
                [Tag ''a'' [(''href'', ''/about'')] [NavigableString ''About''],
                 Tag ''a'' [(''href'', ''#top'')] [NavigableString ''Jump'']],
              Tag ''h1'' [] [NavigableString ''Welcome''],
              Tag ''p'' [] [NavigableString ''Leading platform.''],
              Tag ''h2'' [] [NavigableString ''Services''],
              Tag ''p'' [] [NavigableString ''We do X.''],
              Tag ''h2'' [] [NavigableString ''Contact''],
              Tag ''p'' [] [NavigableString ''Reach us.'']]]]"

definition long_description_page :: node where
  \<comment> \<open>\<open><meta name="description" content="aaa...">\<close>, the content 1201 characters long\<close>
  "long_description_page =
     Tag ''[document]'' []
       [Tag ''meta'' [(''name'', ''description''), (''content'', replicate 1201 (CHR ''a''))] []]"

definition blank_description_page :: node where
  \<comment> \<open>\<open><meta name="description" content=" ">\<close>\<close>
  "blank_description_page =
     Tag ''[document]'' []
       [Tag ''meta'' [(''name'', ''description''), (''content'', '' '')] []]"




definition title_only_page :: node where
  \<comment> \<open>\<open><title>T</title>\<close>\<close>
  "title_only_page = Tag ''[document]'' [] [Tag ''title'' [] [NavigableString ''T'']]"

definition commented_title_page :: node where
  \<comment> \<open>\<open><title>Acme<!-- tagline --></title>\<close>\<close>
  "commented_title_page =
     Tag ''[document]'' []
       [Tag ''title'' [] [NavigableString ''Acme'', Comment '' tagline '']]"

definition padded_image_page :: node where
  \<comment> \<open>\<open><img src=" a.png " alt=" logo ">\<close>\<close>
  "padded_image_page =
     Tag ''[document]'' [] [Tag ''img'' [(''src'', '' a.png ''), (''alt'', '' logo '')] []]"

definition bare_h2_page :: node where
  \<comment> \<open>\<open><h2>Only</h2>loose text<span>inline</span>\<close>\<close>
  "bare_h2_page =
     Tag ''[document]'' []
       [Tag ''h2'' [] [NavigableString ''Only''], NavigableString ''loose text'',
        Tag ''span'' [] [NavigableString ''inline'']]"





definition seven_h2_page :: node where
  \<comment> \<open>\<open><h2>A</h2><h2>B</h2><h2>C</h2><h2>D</h2><h2>E</h2><h2>F</h2><h2>G</h2>\<close>\<close>
  "seven_h2_page =
     Tag ''[document]'' []
       [Tag ''h2'' [] [NavigableString ''A''], Tag ''h2'' [] [NavigableString ''B''],
        Tag ''h2'' [] [NavigableString ''C''], Tag ''h2'' [] [NavigableString ''D''],
        Tag ''h2'' [] [NavigableString ''E''], Tag ''h2'' [] [NavigableString ''F''],
        Tag ''h2'' [] [NavigableString ''G'']]"

section \<open>Strings: stripping\<close>

lemma last_dropWhile_nonempty: "dropWhile P xs \<noteq> [] \<Longrightarrow> last (dropWhile P xs) = last xs"
  by (induction xs) (auto split: if_splits)

lemma strip_fixed:
  assumes "s \<noteq> []" "\<not> isspace (hd s)" "\<not> isspace (last s)"
  shows "strip s = s"
proof -
  have a: "dropWhile isspace s = s" using assms(1,2) by (cases s) auto
  have "rev s \<noteq> []" "\<not> isspace (hd (rev s))" using assms(1,3) by (simp_all add: hd_rev)
  then have "dropWhile isspace (rev s) = rev s" by (cases "rev s") auto
  with a show ?thesis by (simp add: strip_def)
qed

lemma strip_ends:
  assumes "strip s \<noteq> []"
  shows "\<not> isspace (hd (strip s)) \<and> \<not> isspace (last (strip s))"
proof -
  define a where "a = dropWhile isspace s"
  define b where "b = dropWhile isspace (rev a)"
  have s: "strip s = rev b" by (simp add: strip_def a_def b_def)
  with assms have b: "b \<noteq> []" by simp
  then have ra: "rev a \<noteq> []" by (auto simp: b_def)
  then have an: "a \<noteq> []" by simp
  have hb: "\<not> isspace (hd b)" using b unfolding b_def by (rule hd_dropWhile)
  have "last b = last (rev a)" using b unfolding b_def by (rule last_dropWhile_nonempty)
  also have "\<dots> = hd a" using an by (simp add: last_rev)
  finally have lb: "last b = hd a" .
  have "\<not> isspace (hd a)" using an unfolding a_def by (rule hd_dropWhile)
  with lb hb b show ?thesis by (simp add: s hd_rev last_rev)
qed

lemma trimmed_Nil: "trimmed []"
  by (simp add: trimmed_def strip_def)

lemma trimmed_strip: "trimmed (strip s)"
proof (cases "strip s = []")
  case True
  then show ?thesis by (simp only: trimmed_Nil)
next
  case False
  with strip_ends [OF False] show ?thesis
    unfolding trimmed_def by (intro strip_fixed) auto
qed

lemma trimmed_iff: "trimmed s = (s = [] \<or> (\<not> isspace (hd s) \<and> \<not> isspace (last s)))"
proof (cases "s = []")
  case True
  then show ?thesis by (simp add: trimmed_Nil)
next
  case False
  show ?thesis
  proof
    assume t: "trimmed s"
    then have "strip s \<noteq> []" using False by (simp add: trimmed_def)
    from strip_ends [OF this] t show "s = [] \<or> (\<not> isspace (hd s) \<and> \<not> isspace (last s))"
      by (simp add: trimmed_def)
  next
    assume "s = [] \<or> (\<not> isspace (hd s) \<and> \<not> isspace (last s))"
    with False show "trimmed s" by (simp add: trimmed_def strip_fixed)
  qed
qed

lemma join_nonempty: "xs \<noteq> [] \<Longrightarrow> \<forall>x \<in> set xs. x \<noteq> [] \<Longrightarrow> join sep xs \<noteq> []"
  by (induction sep xs rule: join.induct) simp_all

lemma trimmed_join:
  "\<forall>x \<in> set xs. x \<noteq> [] \<and> trimmed x \<Longrightarrow> trimmed (join sep xs)"
proof (induction sep xs rule: join.induct)
  case (1 sep)
  then show ?case by (simp add: trimmed_Nil)
next
  case (2 sep x)
  then show ?case by simp
next
  case (3 sep x y ys)
  define j where "j = join sep (y # ys)"
  have j: "j \<noteq> []" unfolding j_def using 3(2) by (intro join_nonempty) auto
  have "trimmed j" unfolding j_def using 3 by simp
  with j have lj: "\<not> isspace (last j)" by (simp add: trimmed_iff)
  have x: "x \<noteq> []" "\<not> isspace (hd x)" using 3(2) by (auto simp: trimmed_iff)
  have "x @ sep @ j \<noteq> []" "\<not> isspace (hd (x @ sep @ j))" "\<not> isspace (last (x @ sep @ j))"
    using x j lj by simp_all
  then have "trimmed (x @ sep @ j)" by (simp only: trimmed_iff) blast
  then show ?case by (simp add: j_def)
qed

lemma stripped_strings_trimmed: "x \<in> set (stripped_strings t) \<Longrightarrow> x \<noteq> [] \<and> trimmed x"
  by (auto simp: stripped_strings_def trimmed_strip)

lemma trimmed_get_text: "trimmed (get_text sep t)"
  unfolding get_text_def by (rule trimmed_join) (simp add: stripped_strings_trimmed)

lemma strip_empty_iff: "(strip s = []) = (\<forall>c \<in> set s. isspace c)"
proof
  assume "strip s = []"
  then have "\<forall>c \<in> set (dropWhile isspace s). isspace c"
    by (simp add: strip_def dropWhile_eq_Nil_conv)
  then have "dropWhile isspace s = []"
    using hd_dropWhile [of isspace s] hd_in_set [of "dropWhile isspace s"] by blast
  then show "\<forall>c \<in> set s. isspace c" by (simp add: dropWhile_eq_Nil_conv)
next
  assume "\<forall>c \<in> set s. isspace c"
  then have d: "dropWhile isspace s = []" by (simp add: dropWhile_eq_Nil_conv)
  show "strip s = []" by (simp only: strip_def d rev.simps dropWhile.simps)
qed

lemma of_char_hash: "((of_char d :: nat) = 35) = (d = CHR ''#'')"
proof -
  have "(of_char (CHR ''#'') :: nat) = 35" by simp
  then show ?thesis by (metis of_char_eq_iff)
qed

lemma lower_char_hash: "(lower_char c = CHR ''#'') = (c = CHR ''#'')"
proof -
  have "((of_char (lower_char c) :: nat) = 35) = ((of_char c :: nat) = 35)"
    by (auto simp: lower_char_def Let_def)
  then show ?thesis by (simp only: of_char_hash)
qed

lemma startswith_lower_hash: "startswith (lower s) ''#'' = startswith s ''#''"
  by (cases s) (simp_all add: startswith_def lower_def lower_char_hash)

section \<open>The loops\<close>

lemma nav_loop_eq:
  "\<forall>a \<in> set as. get (fst a) ''href'' \<noteq> None \<Longrightarrow>
   nav_loop as acc = Inr (acc @ map spec_nav_entry (filter spec_nav_keep as))"
  by (induction as arbitrary: acc)
     (auto simp: Let_def spec_nav_keep_def spec_nav_entry_def startswith_lower_hash)

lemma fallback_loop_eq:
  "\<forall>a \<in> set as. get (fst a) ''href'' \<noteq> None \<Longrightarrow>
   fallback_loop as acc = Inr (acc @ map spec_nav_entry (filter has_text as))"
  by (induction as arbitrary: acc) (auto simp: Let_def spec_nav_entry_def has_text_def)

lemma collect_siblings_eq:
  "collect_siblings (\<lambda>sib. Inr (reparse sib)) sibs acc =
     Inr (acc @ spec_section_parts reparse sibs)"
  by (induction sibs arbitrary: acc)
     (auto simp: Let_def spec_section_parts_def is_content_tag_def)

lemma sections_loop_eq:
  "sections_loop (\<lambda>sib. Inr (reparse sib)) h2s acc =
     Inr (acc @ map (spec_section reparse) h2s)"
  by (induction h2s arbitrary: acc)
     (simp_all add: Let_def spec_section_def collect_siblings_eq)

lemma images_loop_eq:
  "images_loop els acc = acc @ map spec_image (filter has_src els)"
  by (induction els arbitrary: acc)
     (auto simp: Let_def spec_image_def has_src_def split: option.splits)

lemma find_all_href_has: "a \<in> set (find_all_href name els) \<Longrightarrow> get (fst a) ''href'' \<noteq> None"
  by (simp add: find_all_href_def)

lemma nav_links_eq:
  "nav_links els =
     Inr (case find ''nav'' els of
            Some nav_tag \<Rightarrow>
              map spec_nav_entry
                (filter spec_nav_keep (find_all_href ''a'' (descendants (contents (fst nav_tag)))))
          | None \<Rightarrow> map spec_nav_entry (filter has_text (take 8 (find_all_href ''a'' els))))"
proof (cases "find ''nav'' els")
  case None
  have "\<forall>a \<in> set (take 8 (find_all_href ''a'' els)). get (fst a) ''href'' \<noteq> None"
    by (meson find_all_href_has in_set_takeD)
  then show ?thesis using None by (simp add: nav_links_def fallback_loop_eq)
next
  case (Some nav_tag)
  have "\<forall>a \<in> set (find_all_href ''a'' (descendants (contents (fst nav_tag)))).
          get (fst a) ''href'' \<noteq> None"
    by (simp add: find_all_href_has)
  then show ?thesis using Some by (simp add: nav_links_def nav_loop_eq)
qed

lemma normalize_eq:
  "normalize reparse target soup =
     (let els = descendants (contents soup)
      in Inr \<lparr>source = target,
              title = extract_title els,
              description = extract_description els,
              hero = \<lparr>heading = hero_heading els (extract_title els),
                      subheading = hero_sub els (extract_title els)\<rparr>,
              nav = take 8 (case find ''nav'' els of
                      Some nav_tag \<Rightarrow>
                        map spec_nav_entry
                          (filter spec_nav_keep
                             (find_all_href ''a'' (descendants (contents (fst nav_tag)))))
                    | None \<Rightarrow>
                        map spec_nav_entry (filter has_text (take 8 (find_all_href ''a'' els)))),
              sections =
                (if find_all ''h2'' els \<noteq> []
                 then take 6 (map (spec_section reparse) (find_all ''h2'' els))
                 else [\<lparr>sec_title = ''About'',
                        body = (case extract_description els of
                                  None \<Rightarrow> default_body
                                | Some d \<Rightarrow> if d \<noteq> [] then d else default_body)\<rparr>]),
              images = take 10 (map spec_image (filter has_src (find_all ''img'' els)))\<rparr>)"
  by (simp add: normalize_def scrape_soup_def Let_def nav_links_eq sections_loop_eq
      images_loop_eq)

section \<open>Exceptions of the parsing library\<close>





lemma scrape_site_parser_raises:
  "requests_get (target_of url) = Inr text \<Longrightarrow> bs text = Inl e \<Longrightarrow>
   scrape_site requests_get bs str url = Inl (Uncaught e)"
  by (simp add: scrape_site_def)

section \<open>What is trimmed\<close>

lemma trimmed_section_body:
  assumes "length (body (spec_section reparse h2)) < 1200"
  shows "trimmed (body (spec_section reparse h2))"
proof -
  let ?j = "join [CHR 0x0A] (spec_section_parts reparse (snd h2))"
  have "trimmed ?j"
    by (rule trimmed_join) (auto simp: spec_section_parts_def trimmed_get_text)
  moreover have "take 1200 ?j = ?j" using assms by (simp add: spec_section_def)
  ultimately show ?thesis by (simp add: spec_section_def)
qed

lemma extract_title_trimmed: "extract_title els = Some x \<Longrightarrow> trimmed x"
  by (auto simp: extract_title_def trimmed_strip split: option.splits if_splits)

lemma extract_description_trimmed: "extract_description els = Some x \<Longrightarrow> trimmed x"
  by (auto simp: extract_description_def Let_def trimmed_strip split: option.splits if_splits)

lemma hero_heading_trimmed: "hero_heading els (extract_title els) = Some x \<Longrightarrow> trimmed x"
  by (auto simp: hero_heading_def h1s_def trimmed_get_text extract_title_trimmed
      split: list.splits)

lemma hero_sub_trimmed:
  "hero_sub els ttl = Some x \<Longrightarrow> length x < 300 \<Longrightarrow> trimmed x"
  by (auto simp: hero_sub_def trimmed_get_text split: if_splits option.splits)

lemma spec_nav_entry_trimmed:
  "trimmed (label (spec_nav_entry a)) \<and> trimmed (href (spec_nav_entry a))"
  by (simp add: spec_nav_entry_def trimmed_get_text trimmed_strip trimmed_Nil
      split: option.splits)

section \<open>Finding the first element\<close>

lemma find_first:
  assumes "els = pre @ h # rest" "name_of (fst h) = Some n"
    "\<forall>e \<in> set pre. name_of (fst e) \<noteq> Some n"
  shows "find n els = Some h"
proof -
  have "filter (\<lambda>e. name_of (fst e) = Some n) pre = []"
    using assms(3) by (simp add: filter_empty_conv)
  then show ?thesis using assms(1,2) by (simp add: find_def find_all_def)
qed

lemma find_none:
  assumes "\<forall>e \<in> set els. name_of (fst e) \<noteq> Some n"
  shows "find n els = None"
proof -
  have "filter (\<lambda>e. name_of (fst e) = Some n) els = []"
    using assms by (simp add: filter_empty_conv)
  then show ?thesis by (simp add: find_def find_all_def)
qed

lemma descendants_after:
  "descendants xs = pre @ e # rest \<Longrightarrow> \<exists>after. rest = descendants (contents (fst e)) @ after"
proof (induction xs arbitrary: pre rest rule: descendants.induct)
  case 1
  then show ?case by simp
next
  case (2 s rest0)
  then show ?case by (cases pre) auto
next
  case (3 s rest0)
  then show ?case by (cases pre) auto
next
  case (4 n a cs rest0)
  show ?case
  proof (cases pre)
    case Nil
    with 4(3) show ?thesis by auto
  next
    case (Cons p pre')
    with 4(3) have eq: "descendants cs @ descendants rest0 = pre' @ e # rest" by simp
    then consider us where "descendants cs = pre' @ us" "us @ descendants rest0 = e # rest"
      | us where "descendants cs @ us = pre'" "descendants rest0 = us @ e # rest"
      by (auto simp: append_eq_append_conv2)
    then show ?thesis
    proof cases
      case 1
      show ?thesis
      proof (cases us)
        case Nil
        with 1 have "descendants rest0 = [] @ e # rest" by simp
        from 4(2) [OF this] show ?thesis .
      next
        case (Cons u us')
        with 1 have cs: "descendants cs = pre' @ e # us'" and r: "rest = us' @ descendants rest0"
          by auto
        from 4(1) [OF cs] obtain after where "us' = descendants (contents (fst e)) @ after" ..
        with r show ?thesis by auto
      qed
    next
      case 2
      from 4(2) [OF 2(2)] show ?thesis .
    qed
  qed
qed

lemma first_split:
  assumes "find n (descendants xs) = Some h"
  shows "\<exists>pre after. descendants xs = pre @ h # descendants (contents (fst h)) @ after \<and>
           name_of (fst h) = Some n \<and> (\<forall>e \<in> set pre. name_of (fst e) \<noteq> Some n)"
proof -
  from assms obtain tl where "filter (\<lambda>e. name_of (fst e) = Some n) (descendants xs) = h # tl"
    by (auto simp: find_def find_all_def split: list.splits)
  then obtain pre rest where d: "descendants xs = pre @ h # rest"
    and p: "\<forall>e \<in> set pre. name_of (fst e) \<noteq> Some n" and h: "name_of (fst h) = Some n"
    by (auto simp: filter_eq_Cons_iff)
  from descendants_after [OF d] obtain after
    where "rest = descendants (contents (fst h)) @ after" ..
  with d p h show ?thesis by blast
qed




section \<open>The sample pages, evaluated\<close>

lemma acme_normalize:
  "normalize reparse_same target acme_page =
     Inr \<lparr>source = target,
          title = Some ''Acme'',
          description = Some ''We build things'',
          hero = \<lparr>heading = Some ''Welcome'', subheading = Some ''Leading platform.''\<rparr>,
          nav = [\<lparr>label = ''About'', href = ''/about''\<rparr>,
                 \<lparr>label = ''Jump'', href = ''#top''\<rparr>],
          sections = [\<lparr>sec_title = ''Services'', body = ''We do X.''\<rparr>,
                      \<lparr>sec_title = ''Contact'', body = ''Reach us.''\<rparr>],
          images = []\<rparr>"
  by code_simp


lemma title_only_page_normalize:
  "normalize reparse_same [] title_only_page =
     Inr \<lparr>source = [], title = Some ''T'', description = None,
          hero = \<lparr>heading = Some ''T'', subheading = None\<rparr>, nav = [],
          sections = [\<lparr>sec_title = ''About'', body = default_body\<rparr>], images = []\<rparr>"
  by code_simp

lemma padded_image_page_normalize:
  "normalize reparse_same [] padded_image_page =
     Inr \<lparr>source = [], title = None, description = None,
          hero = \<lparr>heading = None, subheading = None\<rparr>, nav = [],
          sections = [\<lparr>sec_title = ''About'', body = default_body\<rparr>],
          images = [\<lparr>src = '' a.png '', alt = '' logo ''\<rparr>]\<rparr>"
  by code_simp

lemma bare_h2_page_normalize:
  "normalize reparse_same [] bare_h2_page =
     Inr \<lparr>source = [], title = None, description = None,
          hero = \<lparr>heading = None, subheading = None\<rparr>, nav = [],
          sections = [\<lparr>sec_title = ''Only'', body = []\<rparr>], images = []\<rparr>"
  by code_simp


lemma title_only_page_elements:
  "descendants (contents title_only_page) =
     [] @ (Tag ''title'' [] [NavigableString ''T''], []) # [(NavigableString ''T'', [])]"
  by (simp add: title_only_page_def)




lemma default_body_length: "length default_body = 58"
  by (simp add: default_body_def)

lemma trimmed_default_body: "trimmed default_body"
  unfolding trimmed_def by code_simp

lemma trimmed_About: "trimmed ''About''"
  unfolding trimmed_def by code_simp

section \<open>Bounds of the output\<close>

text \<open>
  C1 (as the code has it). Every page yields a document; its navigation has at most 8
  entries, it has between 1 and 6 sections and at most 10 images, and every section body
  has at most 1200 characters, except the body of the synthetic section of a page
  without \<open>h2\<close>, which is the description of the page whatever its length.
\<close>

theorem output_bounds:
  "\<exists>d. normalize reparse target soup = Inr d \<and>
       length (nav d) \<le> 8 \<and>
       1 \<le> length (sections d) \<and> length (sections d) \<le> 6 \<and>
       length (images d) \<le> 10 \<and>
       (\<forall>s \<in> set (sections d).
          length (body s) \<le> 1200 \<or>
          (find_all ''h2'' (descendants (contents soup)) = [] \<and> description d = Some (body s)))"
proof -
  let ?els = "descendants (contents soup)"
  have nonempty: "find_all ''h2'' ?els \<noteq> [] \<Longrightarrow>
      1 \<le> length (take 6 (map (spec_section reparse) (find_all ''h2'' ?els)))"
    by (cases "find_all ''h2'' ?els") simp_all
  have bodies: "\<And>s. s \<in> set (take 6 (map (spec_section reparse) (find_all ''h2'' ?els)))
      \<Longrightarrow> length (body s) \<le> 1200"
    by (auto dest!: in_set_takeD simp: spec_section_def)
  show ?thesis
    unfolding normalize_eq Let_def
    using nonempty bodies
    by (auto simp: default_body_length split: option.splits)
qed

theorem output_bounds_witness:
  "\<exists>d. normalize reparse_same [] acme_page = Inr d \<and>
       length (nav d) = 2 \<and> length (sections d) = 2 \<and> length (images d) = 0 \<and>
       map (\<lambda>s. length (body s)) (sections d) = [8, 9]"
  using output_bounds [of reparse_same "[]" acme_page]
  by (auto simp: acme_normalize)

text \<open>
  C1 as stated fails: a page without \<open>h2\<close> whose description has 1201 characters gets
  one section, and its body has 1201 characters.
\<close>

theorem fallback_body_counterexample:
  "map_sum id (\<lambda>d. map (\<lambda>s. length (body s)) (sections d))
     (normalize reparse_same [] long_description_page) = Inr [1201]"
  by code_simp

section \<open>The scenario of the description\<close>

text \<open>
  C2 (as the code has it). On the page
  \<open><html><head><title>Acme</title><meta name="description" content="We build things"></head>
  <body><nav><a href="/about">About</a><a href="#top">Jump</a></nav><h1>Welcome</h1>
  <p>Leading platform.</p><h2>Services</h2><p>We do X.</p><h2>Contact</h2><p>Reach us.</p>
  </body></html>\<close> the extraction returns the title \<open>Acme\<close>, the description
  \<open>We build things\<close>, the hero \<open>Welcome\<close> with \<open>Leading platform.\<close>, the sections
  \<open>Services\<close> and \<open>Contact\<close> with their paragraphs, no image, and both anchors of the
  \<open>nav\<close>: the one labelled \<open>Jump\<close> stays, since the \<open>#\<close> test reads the label, not the
  href.
\<close>

theorem acme_scenario:
  "normalize reparse_same target acme_page =
     Inr \<lparr>source = target,
          title = Some ''Acme'',
          description = Some ''We build things'',
          hero = \<lparr>heading = Some ''Welcome'', subheading = Some ''Leading platform.''\<rparr>,
          nav = [\<lparr>label = ''About'', href = ''/about''\<rparr>,
                 \<lparr>label = ''Jump'', href = ''#top''\<rparr>],
          sections = [\<lparr>sec_title = ''Services'', body = ''We do X.''\<rparr>,
                      \<lparr>sec_title = ''Contact'', body = ''Reach us.''\<rparr>],
          images = []\<rparr>"
  by (fact acme_normalize)

text \<open>
  C2 as stated fails: the navigation of that page is not the single entry \<open>About\<close>.
\<close>

theorem acme_nav_counterexample:
  "map_sum id nav (normalize reparse_same [] acme_page)
     \<noteq> Inr [\<lparr>label = ''About'', href = ''/about''\<rparr>]"
  by code_simp

section \<open>No ceiling on the size of the input\<close>




section \<open>Sections\<close>

text \<open>
  C4 (as the code has it). The sections are one per \<open>h2\<close> in document order, each titled
  with the text of its heading; its body walks the following siblings of the heading up
  to the next \<open>h2\<close> sibling, takes the text of those that are \<open>p\<close>, \<open>h3\<close>, \<open>ul\<close>, \<open>ol\<close> or
  \<open>div\<close> and have any, joins them with a newline and keeps 1200 characters; the list is
  cut to 6. A page without \<open>h2\<close> gets the one section \<open>About\<close>, whose body is the
  description when there is one and it is not empty, and the default sentence otherwise.
\<close>

theorem sections_rule:
  "\<exists>d. normalize reparse target soup = Inr d \<and>
       sections d =
         (if find_all ''h2'' (descendants (contents soup)) \<noteq> []
          then take 6 (map (spec_section reparse) (find_all ''h2'' (descendants (contents soup))))
          else [\<lparr>sec_title = ''About'',
                 body = (case description d of
                           None \<Rightarrow> default_body
                         | Some x \<Rightarrow> if x \<noteq> [] then x else default_body)\<rparr>])"
  by (simp add: normalize_eq Let_def)

theorem sections_rule_witness:
  "\<exists>d. normalize reparse_same [] acme_page = Inr d \<and>
       sections d = [\<lparr>sec_title = ''Services'', body = ''We do X.''\<rparr>,
                     \<lparr>sec_title = ''Contact'', body = ''Reach us.''\<rparr>]"
  using sections_rule [of reparse_same "[]" acme_page]
  by (auto simp: acme_normalize)

text \<open>
  C4 as stated fails: a page whose description is blank has a description, the empty
  string, and still the body of its synthetic section is the default sentence.
\<close>

theorem blank_description_counterexample:
  "normalize reparse_same [] blank_description_page =
     Inr \<lparr>source = [], title = None, description = Some [],
          hero = \<lparr>heading = None, subheading = None\<rparr>, nav = [],
          sections = [\<lparr>sec_title = ''About'',
                       body = ''We build advanced quantitative computing and AI solutions.''\<rparr>],
          images = []\<rparr>"
  by code_simp

section \<open>Navigation\<close>




section \<open>Hero\<close>




section \<open>Title\<close>

text \<open>
  C7 (as the code has it). When the elements of the page are \<open>pre\<close>, then the first
  \<open>title\<close>, then \<open>rest\<close>: the title is absent when the contents of that element do not
  come down to a single string, or that string is empty; it is that string, trimmed,
  and not empty, when the string has a character that is not whitespace. Without any
  \<open>title\<close> element the title is absent. A title that is present is trimmed.
\<close>

theorem title_rule:
  "\<exists>d. normalize reparse target soup = Inr d \<and>
       (descendants (contents soup) = pre @ t # rest \<and> name_of (fst t) = Some ''title'' \<and>
        (\<forall>e \<in> set pre. name_of (fst e) \<noteq> Some ''title'') \<longrightarrow>
          (string_of (fst t) = None \<or> string_of (fst t) = Some [] \<longrightarrow> title d = None) \<and>
          (\<forall>s. string_of (fst t) = Some s \<and> \<not> list_all isspace s \<longrightarrow>
               title d = Some (strip s) \<and> strip s \<noteq> [])) \<and>
       ((\<forall>e \<in> set (descendants (contents soup)). name_of (fst e) \<noteq> Some ''title'') \<longrightarrow>
          title d = None) \<and>
       (\<forall>x. title d = Some x \<longrightarrow> trimmed x)"
proof -
  let ?els = "descendants (contents soup)"
  have a: "(string_of (fst t) = None \<or> string_of (fst t) = Some [] \<longrightarrow> extract_title ?els = None) \<and>
          (\<forall>s. string_of (fst t) = Some s \<and> \<not> list_all isspace s \<longrightarrow>
               extract_title ?els = Some (strip s) \<and> strip s \<noteq> [])"
    if "?els = pre @ t # rest" "name_of (fst t) = Some ''title''"
      "\<forall>e \<in> set pre. name_of (fst e) \<noteq> Some ''title''"
    using find_first [OF that]
    by (auto simp: extract_title_def strip_empty_iff list_all_iff)
  have b: "extract_title ?els = None"
    if "\<forall>e \<in> set ?els. name_of (fst e) \<noteq> Some ''title''"
    using find_none [OF that] by (simp add: extract_title_def)
  have c: "trimmed x" if "extract_title ?els = Some x" for x
    using that by (auto simp: extract_title_def trimmed_strip split: option.splits if_splits)
  show ?thesis using a b c by (simp add: normalize_eq Let_def)
qed

theorem title_rule_witness:
  "descendants (contents title_only_page) =
     [] @ (Tag ''title'' [] [NavigableString ''T''], []) # [(NavigableString ''T'', [])] \<and>
   (\<exists>d. normalize reparse_same [] title_only_page = Inr d \<and> title d = Some ''T'' \<and>
        trimmed ''T'') \<and>
   (\<exists>d. normalize reparse_same [] padded_image_page = Inr d \<and> title d = None)"
  using title_rule [of reparse_same "[]" title_only_page "[]"
      "(Tag ''title'' [] [NavigableString ''T''], [])" "[(NavigableString ''T'', [])]"]
    title_rule [of reparse_same "[]" padded_image_page]
  by (simp add: title_only_page_normalize padded_image_page_normalize title_only_page_elements)

text \<open>
  C7 as stated fails: a \<open>title\<close> element holding the string \<open>Acme\<close> and a comment has the
  text \<open>Acme\<close>, and the title of the page is absent.
\<close>

theorem commented_title_counterexample:
  "get_text [] (Tag ''title'' [] [NavigableString ''Acme'', Comment '' tagline '']) = ''Acme'' \<and>
   map_sum id title (normalize reparse_same [] commented_title_page) = Inr None"
  by code_simp

section \<open>Trimmed fields\<close>

text \<open>
  C8 (as the code has it). The title, the description, the hero heading, every label
  and href of the navigation and every section title are trimmed; the hero subheading
  and a section body are trimmed when shorter than their cut (300 and 1200 characters).
  Nothing is said of the src and alt of an image, which are passed on as they are.
\<close>

theorem trimmed_fields:
  "\<exists>d. normalize reparse target soup = Inr d \<and>
       (\<forall>x. title d = Some x \<longrightarrow> trimmed x) \<and>
       (\<forall>x. description d = Some x \<longrightarrow> trimmed x) \<and>
       (\<forall>x. heading (hero d) = Some x \<longrightarrow> trimmed x) \<and>
       (\<forall>x. subheading (hero d) = Some x \<and> length x < 300 \<longrightarrow> trimmed x) \<and>
       (\<forall>l \<in> set (nav d). trimmed (label l) \<and> trimmed (href l)) \<and>
       (\<forall>s \<in> set (sections d).
          trimmed (sec_title s) \<and> (length (body s) < 1200 \<longrightarrow> trimmed (body s)))"
proof -
  let ?els = "descendants (contents soup)"
  have secs: "trimmed (sec_title s) \<and> (length (body s) < 1200 \<longrightarrow> trimmed (body s))"
    if "s \<in> set (take 6 (map (spec_section reparse) (find_all ''h2'' ?els)))" for s
  proof -
    from that obtain h2 where s: "s = spec_section reparse h2" by (auto dest!: in_set_takeD)
    have "trimmed (sec_title s)" by (simp add: s spec_section_def trimmed_get_text)
    then show ?thesis using trimmed_section_body [of reparse h2] by (simp add: s)
  qed
  have navs: "trimmed (label l) \<and> trimmed (href l)"
    if "l \<in> set (take 8 (map spec_nav_entry as))" for l as
    using that spec_nav_entry_trimmed by (auto dest!: in_set_takeD)
  have fb: "trimmed (case extract_description ?els of
                       None \<Rightarrow> default_body
                     | Some d \<Rightarrow> if d \<noteq> [] then d else default_body)"
    by (auto simp: trimmed_default_body extract_description_trimmed split: option.splits)
  show ?thesis
    unfolding normalize_eq Let_def
    using secs navs fb
    by (auto simp: extract_title_trimmed extract_description_trimmed hero_heading_trimmed
        hero_sub_trimmed trimmed_About split: option.splits)
qed

theorem trimmed_fields_witness:
  "\<exists>d. normalize reparse_same [] acme_page = Inr d \<and>
       title d = Some ''Acme'' \<and> trimmed ''Acme'' \<and> trimmed ''We build things'' \<and>
       trimmed ''Welcome'' \<and> trimmed ''Leading platform.'' \<and> trimmed ''About'' \<and>
       trimmed ''/about'' \<and> trimmed ''Services'' \<and> trimmed ''We do X.''"
  using trimmed_fields [of reparse_same "[]" acme_page]
  by (auto simp: acme_normalize)

text \<open>
  C8 as stated fails: the src and the alt of an image keep their surrounding blanks.
\<close>

theorem padded_image_counterexample:
  "map_sum id (\<lambda>d. map (\<lambda>i. (src i, trimmed (src i), alt i, trimmed (alt i))) (images d))
     (normalize reparse_same [] padded_image_page)
   = Inr [('' a.png '', False, '' logo '', False)]"
  by code_simp

section \<open>A section for every heading\<close>

text \<open>
  C10 (as the code has it). On a page with at least one \<open>h2\<close>, the sections are those
  of its first six \<open>h2\<close>s, one for each in document order and titled with its text: a
  seventh or later \<open>h2\<close> gets no section, and the synthetic section does not appear.
  Of these, a heading whose siblings up to the next \<open>h2\<close> hold no \<open>p\<close>, \<open>h3\<close>, \<open>ul\<close>,
  \<open>ol\<close> or \<open>div\<close> with text gets the empty body.
\<close>

theorem section_per_h2:
  "find_all ''h2'' (descendants (contents soup)) \<noteq> [] \<longrightarrow>
     (\<exists>d. normalize reparse target soup = Inr d \<and>
          sections d =
            take 6 (map (spec_section reparse) (find_all ''h2'' (descendants (contents soup)))) \<and>
          length (sections d) = min 6 (length (find_all ''h2'' (descendants (contents soup)))) \<and>
          (\<forall>i < length (sections d).
             sec_title (sections d ! i) =
               get_text [] (fst (find_all ''h2'' (descendants (contents soup)) ! i)) \<and>
             ((\<forall>sib \<in> set (takeWhile (\<lambda>sib. name_of sib \<noteq> Some ''h2'')
                              (snd (find_all ''h2'' (descendants (contents soup)) ! i))).
                 is_content_tag sib \<longrightarrow> get_text '' '' (reparse sib) = []) \<longrightarrow>
              body (sections d ! i) = [])))"
proof -
  have empty: "body (spec_section reparse h) = []"
    if "\<forall>sib \<in> set (takeWhile (\<lambda>sib. name_of sib \<noteq> Some ''h2'') (snd h)).
          is_content_tag sib \<longrightarrow> get_text '' '' (reparse sib) = []" for h
  proof -
    have "spec_section_parts reparse (snd h) = []"
      using that by (auto simp: spec_section_parts_def filter_empty_conv)
    then show ?thesis by (simp add: spec_section_def)
  qed
  show ?thesis
    by (auto simp: normalize_eq Let_def spec_section_def
        empty [unfolded spec_section_def, simplified])
qed

theorem section_per_h2_witness:
  "find_all ''h2'' (descendants (contents bare_h2_page)) \<noteq> [] \<and>
   (\<exists>d. normalize reparse_same [] bare_h2_page = Inr d \<and>
        sections d = [\<lparr>sec_title = ''Only'', body = []\<rparr>])"
proof -
  have h: "find_all ''h2'' (descendants (contents bare_h2_page)) \<noteq> []"
    by (simp add: bare_h2_page_def find_all_def)
  from h section_per_h2 [of bare_h2_page reparse_same "[]"] show ?thesis
    by (auto simp: bare_h2_page_normalize)
qed

text \<open>
  C10 as stated fails: of seven \<open>h2\<close>s the seventh gets no section.
\<close>

theorem seven_h2_counterexample:
  "map (\<lambda>h. get_text [] (fst h)) (find_all ''h2'' (descendants (contents seven_h2_page)))
     = [''A'', ''B'', ''C'', ''D'', ''E'', ''F'', ''G''] \<and>
   map_sum id (\<lambda>d. map sec_title (sections d)) (normalize reparse_same [] seven_h2_page)
     = Inr [''A'', ''B'', ''C'', ''D'', ''E'', ''F'']"
  by code_simp

end
